theory Spec2Isabelle
  imports Complex_Main
begin

section \<open>Python values, string formatting and joining\<close>

text \<open>
  The resolvers of \<^verbatim>\<open>grapple/types/images.py\<close> format their arguments with
  f-strings and glue the pieces with \<^verbatim>\<open>str.join\<close>. The values that reach them
  through the schema are strings (\<^verbatim>\<open>graphene.String\<close>), integers
  (\<^verbatim>\<open>graphene.Int\<close>) and \<^verbatim>\<open>None\<close> (an argument passed as null).
\<close>

datatype pyval = VNone | VInt int | VStr string

text \<open>Exceptions that the resolvers meet: the two they catch, Python's own, and any other.\<close>

datatype exn =
    SourceImageIOError
  | DoesNotExist
  | MultipleObjectsReturned
  | ZeroDivisionError
  | ValueError
  | OtherError string

text \<open>\<^verbatim>\<open>str(n)\<close> for an integer: decimal digits, most significant first, a minus sign if negative.\<close>

definition digit_char :: "nat \<Rightarrow> char" where
  "digit_char d = char_of (48 + d)"

fun str_nat :: "nat \<Rightarrow> string" where
  "str_nat n = (if n < 10 then [digit_char n] else str_nat (n div 10) @ [digit_char (n mod 10)])"

declare str_nat.simps [simp del]

definition str_int :: "int \<Rightarrow> string" where
  "str_int i = (if i < 0 then CHR ''-'' # str_nat (nat (- i)) else str_nat (nat i))"

text \<open>What \<^verbatim>\<open>f"{val}"\<close> inserts for a value.\<close>

fun py_str :: "pyval \<Rightarrow> string" where
  "py_str VNone = ''None''"
| "py_str (VInt i) = str_int i"
| "py_str (VStr s) = s"

text \<open>\<^verbatim>\<open>sep.join(xs)\<close>: the first element, then each further element preceded by the separator.\<close>

fun py_join :: "string \<Rightarrow> string list \<Rightarrow> string" where
  "py_join sep [] = []"
| "py_join sep (x # xs) = x @ concat (map (\<lambda>y. sep @ y) xs)"

section \<open>The allow-list setting\<close>

text \<open>
  \<^verbatim>\<open>grapple_settings.ALLOWED_IMAGE_FILTERS\<close> is whatever the project configured:
  \<^verbatim>\<open>None\<close> (the default), a list, a tuple, or a value of another type such as a single
  string or an integer.
\<close>

datatype setting =
    SNone
  | SList "pyval list"
  | STuple "pyval list"
  | SStr string
  | SInt int

text \<open>\<^verbatim>\<open>isinstance(allowed_filters, (list, tuple))\<close>\<close>

fun isinstance_list_tuple :: "setting \<Rightarrow> bool" where
  "isinstance_list_tuple (SList xs) = True"
| "isinstance_list_tuple (STuple xs) = True"
| "isinstance_list_tuple _ = False"

text \<open>The elements of a list or tuple setting, in order (nothing for the other values).\<close>

fun items :: "setting \<Rightarrow> pyval list" where
  "items (SList xs) = xs"
| "items (STuple xs) = xs"
| "items _ = []"

text \<open>
  \<^verbatim>\<open>x in xs\<close> on a list or tuple: some element equals \<open>x\<close>. A string equals only the
  same string, character by character.
\<close>

fun py_in :: "pyval \<Rightarrow> pyval list \<Rightarrow> bool" where
  "py_in x [] = False"
| "py_in x (y # ys) = (if x = y then True else py_in x ys)"

text \<open>
  \<^verbatim>\<open>
  def rendition_allowed(rendition_filter):
      allowed_filters = grapple_settings.ALLOWED_IMAGE_FILTERS
      if allowed_filters is None or not isinstance(allowed_filters, (list, tuple)):
          return True
      return rendition_filter in allowed_filters
  \<close>
  The setting is the first argument of the model.
\<close>

definition rendition_allowed :: "setting \<Rightarrow> string \<Rightarrow> bool" where
  "rendition_allowed allowed_filters rendition_filter =
     (if allowed_filters = SNone \<or> \<not> isinstance_list_tuple allowed_filters then True
      else py_in (VStr rendition_filter) (items allowed_filters))"

section \<open>Images, renditions and the rendition engine\<close>

text \<open>
  The fields of the image model that the resolvers read: the primary key, the name of the
  stored file, the pixel size, and the owning collection with the view restrictions set on
  it. \<^verbatim>\<open>instance.file.name\<close> is \<^verbatim>\<open>None\<close> for an instance whose file was set to
  \<^verbatim>\<open>None\<close>, and the empty string for an image without a file that was built with the
  field's default or loaded from its table row.
\<close>

record collection =
  collection_id :: int
  view_restrictions :: "int list"

record image =
  pk :: int
  title :: string
  file_name :: "string option"
  width :: int
  height :: int
  collection :: collection

text \<open>
  A rendition: the image it was made from, the filter specification that produced it, the
  derived file and the resulting size (\<^verbatim>\<open>img.width\<close> in \<^verbatim>\<open>resolve_src_set\<close> is
  \<open>rendition_width\<close>).
\<close>

record rendition =
  image_pk :: int
  filter_spec :: string
  rendition_file :: string
  rendition_width :: int
  rendition_height :: int

text \<open>
  \<^verbatim>\<open>instance.get_rendition(filters)\<close> belongs to the image library. It reads and writes
  the stored renditions, so it is a function of a state \<open>'s\<close>, and it returns a rendition
  or raises. The resolvers take it as a parameter.
\<close>

type_synonym 's engine = "'s \<Rightarrow> image \<Rightarrow> string \<Rightarrow> (exn + rendition) \<times> 's"

section \<open>The image resolvers\<close>

text \<open>
  Keyword arguments arrive as a dict, whose iteration order is the order of insertion: an
  association list. \<^verbatim>\<open>"|".join([f"{key}-{val}" for key, val in kwargs.items()])\<close>
\<close>

definition build_filters :: "(string \<times> pyval) list \<Rightarrow> string" where
  "build_filters kwargs = py_join ''|'' (map (\<lambda>(key, val). key @ ''-'' @ py_str val) kwargs)"

text \<open>
  \<^verbatim>\<open>
  def resolve_rendition(instance, info, **kwargs):
      filters = "|".join([f"{key}-{val}" for key, val in kwargs.items()])
      if not rendition_allowed(filters):
          return
      try:
          return instance.get_rendition(filters)
      except SourceImageIOError:
          return
  \<close>
  \<open>Inr None\<close> is the returned \<^verbatim>\<open>None\<close>, \<open>Inl e\<close> an exception that leaves the resolver.
\<close>

definition resolve_rendition ::
  "setting \<Rightarrow> 's engine \<Rightarrow> image \<Rightarrow> (string \<times> pyval) list \<Rightarrow> 's \<Rightarrow> (exn + rendition option) \<times> 's" where
  "resolve_rendition allowed_filters get_rendition instance kwargs s =
     (let filters = build_filters kwargs in
      if \<not> rendition_allowed allowed_filters filters then (Inr None, s)
      else (case get_rendition s instance filters of
              (Inr r, s') \<Rightarrow> (Inr (Some r), s')
            | (Inl e, s') \<Rightarrow> (if e = SourceImageIOError then (Inr None, s') else (Inl e, s'))))"

text \<open>
  \<^verbatim>\<open>get_media_item_url\<close> comes from \<^verbatim>\<open>grapple/utils.py\<close>; the resolvers take it as a
  parameter that returns a URL or raises.
\<close>

definition resolve_url :: "('a \<Rightarrow> exn + string) \<Rightarrow> 'a \<Rightarrow> exn + string" where
  "resolve_url get_media_item_url instance = get_media_item_url instance"

definition resolve_src :: "('a \<Rightarrow> exn + string) \<Rightarrow> 'a \<Rightarrow> exn + string" where
  "resolve_src get_media_item_url self = get_media_item_url self"

text \<open>
  \<^verbatim>\<open>return instance.width / instance.height\<close>: true division of two integers, which raises
  \<^verbatim>\<open>ZeroDivisionError\<close> for a zero divisor and otherwise yields the float nearest to the
  exact quotient. The rounding of a rational to a float is the parameter \<open>float\<close>.
\<close>

definition resolve_aspect_ratio :: "(rat \<Rightarrow> 'f) \<Rightarrow> image \<Rightarrow> exn + 'f" where
  "resolve_aspect_ratio float instance =
     (if height instance = 0 then Inl ZeroDivisionError
      else Inr (float (of_int (width instance) / of_int (height instance))))"

text \<open>\<^verbatim>\<open>return f"(max-width: {instance.width}px) 100vw, {instance.width}px"\<close>\<close>

definition resolve_sizes :: "image \<Rightarrow> string" where
  "resolve_sizes instance =
     ''(max-width: '' @ str_int (width instance) @ ''px) 100vw, '' @ str_int (width instance) @ ''px''"

text \<open>
  The first comprehension of \<^verbatim>\<open>resolve_src_set\<close>:
  \<^verbatim>\<open>
  [ImageObjectType.resolve_rendition(instance, info, width=width, **format_kwarg)
   for width in sizes
   if rendition_allowed(f"width-{width}{filter_suffix}")]
  \<close>
  The calls run in the order of \<open>sizes\<close>, each on the state the previous one left; an
  exception ends the comprehension. The loop variable \<^verbatim>\<open>width\<close> is \<open>w\<close> here.
\<close>

fun rendition_list ::
  "setting \<Rightarrow> 's engine \<Rightarrow> image \<Rightarrow> string \<Rightarrow> (string \<times> pyval) list \<Rightarrow> pyval list \<Rightarrow> 's
     \<Rightarrow> (exn + rendition option list) \<times> 's" where
  "rendition_list allowed_filters get_rendition instance filter_suffix format_kwarg [] s = (Inr [], s)"
| "rendition_list allowed_filters get_rendition instance filter_suffix format_kwarg (w # sizes) s =
     (if rendition_allowed allowed_filters (''width-'' @ py_str w @ filter_suffix) then
        (case resolve_rendition allowed_filters get_rendition instance
                ((''width'', w) # format_kwarg) s of
           (Inl e, s') \<Rightarrow> (Inl e, s')
         | (Inr img, s') \<Rightarrow>
             (case rendition_list allowed_filters get_rendition instance filter_suffix format_kwarg sizes s' of
                (Inl e, s'') \<Rightarrow> (Inl e, s'')
              | (Inr imgs, s'') \<Rightarrow> (Inr (img # imgs), s'')))
      else rendition_list allowed_filters get_rendition instance filter_suffix format_kwarg sizes s)"

text \<open>
  The second comprehension:
  \<^verbatim>\<open>[f"{get_media_item_url(img)} {img.width}w" for img in rendition_list if img is not None]\<close>
\<close>

fun src_set_entries :: "(rendition \<Rightarrow> exn + string) \<Rightarrow> rendition option list \<Rightarrow> exn + string list" where
  "src_set_entries get_media_item_url [] = Inr []"
| "src_set_entries get_media_item_url (None # imgs) = src_set_entries get_media_item_url imgs"
| "src_set_entries get_media_item_url (Some img # imgs) =
     (case get_media_item_url img of
        Inl e \<Rightarrow> Inl e
      | Inr u \<Rightarrow>
          (case src_set_entries get_media_item_url imgs of
             Inl e \<Rightarrow> Inl e
           | Inr entries \<Rightarrow> Inr ((u @ '' '' @ str_int (rendition_width img) @ ''w'') # entries)))"

text \<open>
  \<^verbatim>\<open>if format\<close>: a format that is neither \<^verbatim>\<open>None\<close> nor the empty string.
\<close>

fun truthy :: "string option \<Rightarrow> bool" where
  "truthy None = False"
| "truthy (Some f) = (f \<noteq> [])"

text \<open>
  \<^verbatim>\<open>
  def resolve_src_set(instance, info, sizes, format=None, **kwargs):
      filter_suffix = f"|format-{format}" if format else ""
      format_kwarg = {"format": format} if format else {}
      if instance.file.name is not None:
          rendition_list = [...]
          return ", ".join([...])
      return ""
  \<close>
\<close>

definition resolve_src_set ::
  "setting \<Rightarrow> 's engine \<Rightarrow> (rendition \<Rightarrow> exn + string) \<Rightarrow> image \<Rightarrow> pyval list \<Rightarrow> string option \<Rightarrow> 's
     \<Rightarrow> (exn + string) \<times> 's" where
  "resolve_src_set allowed_filters get_rendition get_media_item_url instance sizes format s =
     (let filter_suffix = (case format of Some f \<Rightarrow> if truthy format then ''|format-'' @ f else [] | None \<Rightarrow> []);
          format_kwarg = (case format of Some f \<Rightarrow> if truthy format then [(''format'', VStr f)] else [] | None \<Rightarrow> [])
      in if file_name instance \<noteq> None then
           (case rendition_list allowed_filters get_rendition instance filter_suffix format_kwarg sizes s of
              (Inl e, s') \<Rightarrow> (Inl e, s')
            | (Inr imgs, s') \<Rightarrow>
                (case src_set_entries get_media_item_url imgs of
                   Inl e \<Rightarrow> (Inl e, s')
                 | Inr entries \<Rightarrow> (Inr (py_join '', '' entries), s')))
         else (Inr [], s))"

section \<open>The query surface\<close>

text \<open>
  The image table is the list of its rows.
  \<^verbatim>\<open>mdl.objects.filter(collection__view_restrictions__isnull=True)\<close> keeps the images
  whose collection has no view restriction; \<^verbatim>\<open>prefetch_renditions()\<close> selects nothing
  away.
\<close>

definition public_images :: "image list \<Rightarrow> image list" where
  "public_images objects = filter (\<lambda>i. view_restrictions (collection i) = []) objects"

text \<open>
  \<^verbatim>\<open>.get(pk=id)\<close>. The field is declared \<^verbatim>\<open>id=graphene.ID()\<close>, so \<open>ident\<close> is the
  string of the query, or \<^verbatim>\<open>None\<close> for null (an integer only from a caller in Python).
  The lookup \<^verbatim>\<open>pk=None\<close> asks for a null key and matches no row. Any other value is
  first coerced to the integer type of the key column by the ORM: \<open>to_python\<close>, a
  parameter, gives the key or raises (\<^verbatim>\<open>ValueError\<close> for a string that is not a number).
  With a key, \<^verbatim>\<open>get\<close> returns the only row that has it and raises
  \<^verbatim>\<open>DoesNotExist\<close> when there is none, \<^verbatim>\<open>MultipleObjectsReturned\<close> when there are
  several.
\<close>

definition queryset_get :: "(pyval \<Rightarrow> exn + int) \<Rightarrow> image list \<Rightarrow> pyval \<Rightarrow> exn + image" where
  "queryset_get to_python qs ident =
     (if ident = VNone then Inl DoesNotExist
      else (case to_python ident of
              Inl e \<Rightarrow> Inl e
            | Inr k \<Rightarrow>
                (case filter (\<lambda>i. pk i = k) qs of
                   [] \<Rightarrow> Inl DoesNotExist
                 | [i] \<Rightarrow> Inr i
                 | _ \<Rightarrow> Inl MultipleObjectsReturned)))"

text \<open>
  \<^verbatim>\<open>
  def resolve_image(parent, info, id, **kwargs):
      try:
          return (mdl.objects.filter(collection__view_restrictions__isnull=True)
                  .prefetch_renditions().get(pk=id))
      except mdl.DoesNotExist:
          return None
  \<close>
  Only \<^verbatim>\<open>DoesNotExist\<close> is caught; every other exception of the lookup leaves the
  resolver.
\<close>

definition resolve_image :: "(pyval \<Rightarrow> exn + int) \<Rightarrow> image list \<Rightarrow> pyval \<Rightarrow> exn + image option" where
  "resolve_image to_python objects ident =
     (case queryset_get to_python (public_images objects) ident of
        Inr i \<Rightarrow> Inr (Some i)
      | Inl e \<Rightarrow> (if e = DoesNotExist then Inr None else Inl e))"

section \<open>Reading decimal strings back\<close>

text \<open>The value of a string of decimal digits, used to check \<open>str_nat\<close> against.\<close>

definition digit_val :: "char \<Rightarrow> nat" where
  "digit_val c = of_char c - 48"

definition nat_of_str :: "string \<Rightarrow> nat" where
  "nat_of_str s = foldl (\<lambda>acc c. 10 * acc + digit_val c) 0 s"

definition is_digit :: "char \<Rightarrow> bool" where
  "is_digit c = (48 \<le> (of_char c :: nat) \<and> (of_char c :: nat) \<le> 57)"

text \<open>
  The integer written by a plain decimal string, an optional minus sign and then digits;
  nothing for a string of another shape.
\<close>

definition int_of_str :: "string \<Rightarrow> int option" where
  "int_of_str s =
     (if s \<noteq> [] \<and> hd s = CHR ''-'' then
        (if tl s \<noteq> [] \<and> list_all is_digit (tl s) then Some (- int (nat_of_str (tl s))) else None)
      else if s \<noteq> [] \<and> list_all is_digit s then Some (int (nat_of_str s))
      else None)"

section \<open>What the specification says, as definitions\<close>

text \<open>
  The filter specification in the specification's words: the options as \<^verbatim>\<open>key-value\<close>
  pairs, in the order of the mapping, with \<^verbatim>\<open>|\<close> between neighbours.
\<close>

fun spec_filter_string :: "(string \<times> pyval) list \<Rightarrow> string" where
  "spec_filter_string [] = []"
| "spec_filter_string [(k, v)] = k @ ''-'' @ py_str v"
| "spec_filter_string ((k, v) # kv # rest) = k @ ''-'' @ py_str v @ ''|'' @ spec_filter_string (kv # rest)"

text \<open>
  The token of a width in the responsive set: \<^verbatim>\<open>width-<N>\<close>, with
  \<^verbatim>\<open>|format-<F>\<close> appended when a format is given, that is, a format that is not the
  empty string.
\<close>

definition width_token :: "pyval \<Rightarrow> string option \<Rightarrow> string" where
  "width_token w format =
     ''width-'' @ py_str w @ (case format of None \<Rightarrow> [] | Some f \<Rightarrow> if f = [] then [] else ''|format-'' @ f)"

text \<open>
  The engine asked for each filter specification of a list in turn, each call on the state
  the previous one left: the outcomes in order, and the final state.
\<close>

fun resolve_each :: "'s engine \<Rightarrow> image \<Rightarrow> string list \<Rightarrow> 's \<Rightarrow> (exn + rendition) list \<times> 's" where
  "resolve_each get_rendition instance [] s = ([], s)"
| "resolve_each get_rendition instance (f # fs) s =
     (case get_rendition s instance f of
        (x, s') \<Rightarrow> (case resolve_each get_rendition instance fs s' of (xs, s'') \<Rightarrow> (x # xs, s'')))"

text \<open>The renditions among the outcomes, in order; and one outcome as the resolver returns it.\<close>

fun survivors :: "(exn + rendition) list \<Rightarrow> rendition list" where
  "survivors [] = []"
| "survivors (Inr r # xs) = r # survivors xs"
| "survivors (Inl e # xs) = survivors xs"

fun recovered :: "exn + rendition \<Rightarrow> rendition option" where
  "recovered (Inr r) = Some r"
| "recovered (Inl e) = None"

text \<open>
  \<^verbatim>\<open>s.split(c)\<close> for a one-character separator: the pieces of \<open>s\<close> between the
  occurrences of \<open>c\<close>, used to read the tokens of a filter specification back.
\<close>

fun split_on :: "char \<Rightarrow> string \<Rightarrow> string list" where
  "split_on c [] = [[]]"
| "split_on c (x # xs) =
     (if x = c then [] # split_on c xs
      else (case split_on c xs of [] \<Rightarrow> [[x]] | y # ys \<Rightarrow> (x # y) # ys))"

section \<open>The rendition engine of the specification\<close>

text \<open>
  Modelled from the spec: the asset-rendition engine behind
  \<^verbatim>\<open>instance.get_rendition(filters)\<close>, which is imported from the image library and has
  no source here. The specification asks for "get-or-create rendition for filter spec" with
  a distinguishable "source unreadable" failure, and describes a rendition as carrying a
  back-reference to its source image and the filter specification that produced it. The
  stored renditions are a list of rows; \<open>find_rendition\<close> is the lookup by image and
  filter specification.
\<close>

definition find_rendition :: "rendition list \<Rightarrow> image \<Rightarrow> string \<Rightarrow> rendition option" where
  "find_rendition store instance filters =
     find (\<lambda>r. image_pk r = pk instance \<and> filter_spec r = filters) store"

text \<open>
  Modelled from the spec: get-or-create. A stored rendition of this image and filter
  specification is returned as it is; otherwise \<open>render\<close> (the pixel work, which may
  raise) produces one, which is stored under this image and filter specification and
  returned. A failure of \<open>render\<close> stores nothing.
\<close>

definition get_rendition :: "(image \<Rightarrow> string \<Rightarrow> exn + rendition) \<Rightarrow> rendition list engine" where
  "get_rendition render store instance filters =
     (case find_rendition store instance filters of
        Some r \<Rightarrow> (Inr r, store)
      | None \<Rightarrow>
          (case render instance filters of
             Inl e \<Rightarrow> (Inl e, store)
           | Inr r \<Rightarrow>
               (let r' = r\<lparr>image_pk := pk instance, filter_spec := filters\<rparr>
                in (Inr r', store @ [r']))))"

text \<open>
  Modelled from the spec: the invariant of the data model, "for a given image, at most one
  rendition exists per distinct filter-specification string".
\<close>

definition one_per_spec :: "rendition list \<Rightarrow> bool" where
  "one_per_spec store = distinct (map (\<lambda>r. (image_pk r, filter_spec r)) store)"

section \<open>Sample data\<close>

definition public_collection :: collection where
  "public_collection = \<lparr>collection_id = 1, view_restrictions = []\<rparr>"

definition private_collection :: collection where
  "private_collection = \<lparr>collection_id = 2, view_restrictions = [5]\<rparr>"

definition photo :: image where
  "photo = \<lparr>pk = 7, title = ''Photo'', file_name = Some ''photo.jpg'', width = 640, height = 480,
             collection = public_collection\<rparr>"

definition broken_photo :: image where
  "broken_photo = photo\<lparr>pk := 8, file_name := Some ''broken.jpg''\<rparr>"

definition no_file_photo :: image where
  "no_file_photo = photo\<lparr>pk := 9, file_name := None\<rparr>"

definition private_photo :: image where
  "private_photo = photo\<lparr>pk := 10, collection := private_collection\<rparr>"

definition empty_name_photo :: image where
  "empty_name_photo = photo\<lparr>pk := 12, file_name := Some []\<rparr>"

text \<open>
  A key coercion for the examples. It follows \<^verbatim>\<open>int()\<close> on an integer, on a plain
  decimal string, and on a string without any digit, which \<^verbatim>\<open>int()\<close> rejects with
  \<^verbatim>\<open>ValueError\<close>.
\<close>

definition sample_to_python :: "pyval \<Rightarrow> exn + int" where
  "sample_to_python v =
     (case v of
        VInt n \<Rightarrow> Inr n
      | VStr s \<Rightarrow> (case int_of_str s of Some n \<Rightarrow> Inr n | None \<Rightarrow> Inl ValueError)
      | VNone \<Rightarrow> Inl (OtherError ''TypeError''))"

text \<open>
  A renderer for the examples: the file \<^verbatim>\<open>broken.jpg\<close> cannot be read, the widths
  100 and 200 are rendered, and any other filter specification is rejected as invalid.
\<close>

definition sample_render :: "image \<Rightarrow> string \<Rightarrow> exn + rendition" where
  "sample_render instance filters =
     (if file_name instance = Some ''broken.jpg'' then Inl SourceImageIOError
      else if filters = ''width-100'' then
        Inr \<lparr>image_pk = 0, filter_spec = [], rendition_file = ''photo.width-100.jpg'',
             rendition_width = 100, rendition_height = 75\<rparr>
      else if filters = ''width-200'' then
        Inr \<lparr>image_pk = 0, filter_spec = [], rendition_file = ''photo.width-200.jpg'',
             rendition_width = 200, rendition_height = 150\<rparr>
      else Inl (OtherError ''InvalidFilterSpecError''))"

text \<open>
  An engine that only counts its calls: the state is the number of calls so far, and every
  call raises an error that carries the filter specification it was given.
\<close>

definition counting_engine :: "nat engine" where
  "counting_engine n instance filters = (Inl (OtherError filters), Suc n)"

definition media_url :: "rendition \<Rightarrow> string" where
  "media_url r = ''/media/'' @ rendition_file r"

section \<open>Decimal formatting\<close>

lemma digit_val_digit_char: "d < 10 \<Longrightarrow> digit_val (digit_char d) = d"
  by (simp add: digit_val_def digit_char_def)

text \<open>Reading the digits of \<open>str_nat n\<close> gives \<open>n\<close> back, so \<open>str_nat\<close> is injective.\<close>

lemma nat_of_str_str_nat: "nat_of_str (str_nat n) = n"
proof (induction n rule: str_nat.induct)
  case (1 n)
  show ?case
  proof (cases "n < 10")
    case True
    then show ?thesis
      by (subst str_nat.simps) (simp add: nat_of_str_def digit_val_digit_char)
  next
    case False
    with 1 have ih: "nat_of_str (str_nat (n div 10)) = n div 10" by simp
    have "nat_of_str (str_nat n) =
            10 * nat_of_str (str_nat (n div 10)) + digit_val (digit_char (n mod 10))"
      using False by (subst str_nat.simps) (simp add: nat_of_str_def)
    also have "\<dots> = 10 * (n div 10) + n mod 10"
      by (simp add: ih digit_val_digit_char)
    finally show ?thesis by simp
  qed
qed

lemma str_nat_inj: "str_nat m = str_nat n \<Longrightarrow> m = n"
  by (metis nat_of_str_str_nat)

lemma str_nat_nonempty: "str_nat n \<noteq> []"
  by (subst str_nat.simps) simp

lemma digit_char_not_minus: "d < 10 \<Longrightarrow> digit_char d \<noteq> CHR ''-''"
proof
  assume d: "d < 10" and eq: "digit_char d = CHR ''-''"
  from eq have "of_char (digit_char d) = (of_char CHR ''-'' :: nat)" by simp
  with d show False by (simp add: digit_char_def)
qed

lemma hd_str_nat: "hd (str_nat n) \<noteq> CHR ''-''"
proof (induction n rule: str_nat.induct)
  case (1 n)
  show ?case
  proof (cases "n < 10")
    case True
    then show ?thesis by (subst str_nat.simps) (simp add: digit_char_not_minus)
  next
    case False
    with 1 have "hd (str_nat (n div 10)) \<noteq> CHR ''-''" by simp
    with False show ?thesis
      by (subst str_nat.simps) (simp add: str_nat_nonempty)
  qed
qed

lemma str_int_inj: "str_int i = str_int j \<Longrightarrow> i = j"
proof -
  assume eq: "str_int i = str_int j"
  have neg_pos: False if "a < 0" "\<not> b < 0" "str_int a = str_int b" for a b
  proof -
    from that have "CHR ''-'' # str_nat (nat (- a)) = str_nat (nat b)" by (simp add: str_int_def)
    then have "hd (str_nat (nat b)) = CHR ''-''" by (metis list.sel(1))
    with hd_str_nat show False by blast
  qed
  show ?thesis
  proof (cases "i < 0"; cases "j < 0")
    assume "i < 0" "j < 0"
    with eq have "nat (- i) = nat (- j)" by (simp add: str_int_def str_nat_inj)
    with \<open>i < 0\<close> \<open>j < 0\<close> show ?thesis by simp
  next
    assume "i < 0" "\<not> j < 0"
    with eq neg_pos show ?thesis by blast
  next
    assume "\<not> i < 0" "j < 0"
    with eq neg_pos [of j i] show ?thesis by simp
  next
    assume "\<not> i < 0" "\<not> j < 0"
    with eq have "nat i = nat j" by (simp add: str_int_def str_nat_inj)
    with \<open>\<not> i < 0\<close> \<open>\<not> j < 0\<close> show ?thesis by simp
  qed
qed

text \<open>The sample key coercion reads back what \<open>str_int\<close> writes.\<close>

lemma is_digit_digit_char: "d < 10 \<Longrightarrow> is_digit (digit_char d)"
  by (simp add: is_digit_def digit_char_def)

lemma digits_str_nat: "list_all is_digit (str_nat n)"
proof (induction n rule: str_nat.induct)
  case (1 n)
  show ?case
  proof (cases "n < 10")
    case True
    then show ?thesis by (subst str_nat.simps) (simp add: is_digit_digit_char)
  next
    case False
    with 1 have "list_all is_digit (str_nat (n div 10))" by simp
    with False show ?thesis
      by (subst str_nat.simps) (simp add: is_digit_digit_char)
  qed
qed

lemma int_of_str_str_int: "int_of_str (str_int i) = Some i"
proof (cases "i < 0")
  case True
  then show ?thesis
    by (simp add: int_of_str_def str_int_def digits_str_nat str_nat_nonempty nat_of_str_str_nat)
next
  case False
  then show ?thesis
    by (simp add: int_of_str_def str_int_def digits_str_nat str_nat_nonempty nat_of_str_str_nat hd_str_nat)
qed

lemma sample_to_python_str: "sample_to_python (VStr (str_int i)) = Inr i"
  by (simp add: sample_to_python_def int_of_str_str_int)

section \<open>The allow-list check\<close>

lemma py_in_set: "py_in x ys = (x \<in> set ys)"
  by (induction ys) auto

lemma rendition_allowed_unrestricted:
  "\<not> isinstance_list_tuple cfg \<Longrightarrow> rendition_allowed cfg f"
  by (simp add: rendition_allowed_def)

lemma rendition_allowed_sequence:
  "isinstance_list_tuple cfg \<Longrightarrow> rendition_allowed cfg f = (VStr f \<in> set (items cfg))"
  by (cases cfg) (simp_all add: rendition_allowed_def py_in_set)

text \<open>
  Claim C1, as stated, has every specification permitted under an empty configuration. An
  empty list is a list, so the membership test runs and finds nothing: with the allow-list
  \<^verbatim>\<open>[]\<close> the filter \<^verbatim>\<open>width-100\<close> is not allowed.
\<close>

theorem rendition_allowed_empty_list_counterexample:
  "\<not> rendition_allowed (SList []) ''width-100''"
  by (simp add: rendition_allowed_def)

text \<open>
  Claim C1, amended: for every filter string \<open>f\<close>, \<open>rendition_allowed\<close> returns True when
  the configured allow-list is \<^verbatim>\<open>None\<close> or not a list or tuple; when it is a list or
  tuple it returns True if and only if \<open>f\<close> equals one of its entries, character by
  character (so the comparison is case-sensitive); in particular an empty list or tuple
  permits nothing.
\<close>

theorem rendition_allowed_characterised:
  "(cfg = SNone \<or> \<not> isinstance_list_tuple cfg \<longrightarrow> rendition_allowed cfg f) \<and>
   (isinstance_list_tuple cfg \<longrightarrow> rendition_allowed cfg f = (VStr f \<in> set (items cfg))) \<and>
   (isinstance_list_tuple cfg \<and> items cfg = [] \<longrightarrow> \<not> rendition_allowed cfg f)"
proof (intro conjI impI)
  assume "cfg = SNone \<or> \<not> isinstance_list_tuple cfg"
  then have "\<not> isinstance_list_tuple cfg" by auto
  then show "rendition_allowed cfg f" by (rule rendition_allowed_unrestricted)
next
  assume "isinstance_list_tuple cfg"
  then show "rendition_allowed cfg f = (VStr f \<in> set (items cfg))"
    by (rule rendition_allowed_sequence)
next
  assume "isinstance_list_tuple cfg \<and> items cfg = []"
  then show "\<not> rendition_allowed cfg f"
    by (simp add: rendition_allowed_sequence)
qed

theorem rendition_allowed_characterised_witness:
  "rendition_allowed SNone ''fill-10x10'' \<and>
   rendition_allowed (SStr ''width-100'') ''fill-10x10'' \<and>
   rendition_allowed (SList [VStr ''width-100'', VStr ''width-200'']) ''width-200'' \<and>
   \<not> rendition_allowed (SList [VStr ''width-100'', VStr ''width-200'']) ''Width-200'' \<and>
   \<not> rendition_allowed (SList [VStr ''width-100'', VStr ''width-200'']) ''width-20'' \<and>
   \<not> rendition_allowed (STuple []) ''width-100''"
  using rendition_allowed_characterised [of SNone "''fill-10x10''"]
    rendition_allowed_characterised [of "SStr ''width-100''" "''fill-10x10''"]
    rendition_allowed_characterised [of "SList [VStr ''width-100'', VStr ''width-200'']" "''width-200''"]
    rendition_allowed_characterised [of "SList [VStr ''width-100'', VStr ''width-200'']" "''Width-200''"]
    rendition_allowed_characterised [of "SList [VStr ''width-100'', VStr ''width-200'']" "''width-20''"]
    rendition_allowed_characterised [of "STuple []" "''width-100''"]
  by simp

section \<open>The rendition resolver\<close>

lemma build_filters_spec: "build_filters kwargs = spec_filter_string kwargs"
  by (induction kwargs rule: spec_filter_string.induct) (simp_all add: build_filters_def)

lemma resolve_rendition_cases:
  "resolve_rendition cfg eng inst kwargs s =
     (if \<not> rendition_allowed cfg (build_filters kwargs) then (Inr None, s)
      else (case eng s inst (build_filters kwargs) of
              (Inr r, s') \<Rightarrow> (Inr (Some r), s')
            | (Inl e, s') \<Rightarrow> (if e = SourceImageIOError then (Inr None, s') else (Inl e, s'))))"
  by (simp add: resolve_rendition_def Let_def)

text \<open>
  Splitting the built string at \<^verbatim>\<open>|\<close> gives the tokens back, one per option and in
  the order of the mapping, as long as no key or value contains the separator.
\<close>

lemma split_on_nonempty: "split_on c s \<noteq> []"
  by (induction s) (auto split: list.splits)

lemma split_on_plain: "c \<notin> set x \<Longrightarrow> split_on c x = [x]"
  by (induction x) auto

lemma split_on_first: "c \<notin> set x \<Longrightarrow> split_on c (x @ c # rest) = x # split_on c rest"
  by (induction x) auto

lemma split_on_join:
  "\<forall>y\<in>set (x # xs). c \<notin> set y \<Longrightarrow> split_on c (py_join [c] (x # xs)) = x # xs"
proof (induction xs arbitrary: x)
  case Nil
  then show ?case by (simp add: split_on_plain)
next
  case (Cons y ys)
  from Cons.prems have "\<forall>z\<in>set (y # ys). c \<notin> set z" by simp
  from Cons.IH [OF this] have ih: "split_on c (py_join [c] (y # ys)) = y # ys" .
  have unfold: "py_join [c] (x # y # ys) = x @ c # py_join [c] (y # ys)" by simp
  from Cons.prems have "c \<notin> set x" by simp
  then have "split_on c (x @ c # py_join [c] (y # ys)) = x # split_on c (py_join [c] (y # ys))"
    by (rule split_on_first)
  with ih unfold show ?case by (simp only:)
qed

lemma build_filters_tokens:
  assumes "kwargs \<noteq> []"
    and "\<forall>(key, val)\<in>set kwargs. CHR ''|'' \<notin> set key \<and> CHR ''|'' \<notin> set (py_str val)"
  shows "split_on CHR ''|'' (build_filters kwargs) = map (\<lambda>(key, val). key @ ''-'' @ py_str val) kwargs"
proof -
  from assms(1) obtain kv rest where k: "kwargs = kv # rest" by (cases kwargs) auto
  let ?tok = "\<lambda>(key, val). key @ ''-'' @ py_str val"
  have "\<forall>y\<in>set (?tok kv # map ?tok rest). CHR ''|'' \<notin> set y"
    using assms(2) k by auto
  from split_on_join [OF this] show ?thesis
    by (simp add: build_filters_def k)
qed

text \<open>
  Claim C2: for every mapping of option names to values, the string that
  \<open>resolve_rendition\<close> builds is the options as \<^verbatim>\<open>key-value\<close> tokens in the mapping's
  order with \<^verbatim>\<open>|\<close> between them, and that string is what it checks against the
  allow-list and hands to the engine.
\<close>

theorem resolve_rendition_filter_string:
  "build_filters kwargs = spec_filter_string kwargs \<and>
   resolve_rendition cfg eng inst kwargs s =
     (if rendition_allowed cfg (spec_filter_string kwargs)
      then (case eng s inst (spec_filter_string kwargs) of
              (Inr r, s') \<Rightarrow> (Inr (Some r), s')
            | (Inl e, s') \<Rightarrow> (if e = SourceImageIOError then (Inr None, s') else (Inl e, s')))
      else (Inr None, s))"
  by (simp add: resolve_rendition_cases build_filters_spec)

theorem resolve_rendition_filter_string_witness:
  "build_filters [(''fill'', VStr ''200x200''), (''format'', VStr ''webp''), (''webpquality'', VInt 80)]
     = ''fill-200x200|format-webp|webpquality-80'' \<and>
   build_filters [(''format'', VStr ''webp''), (''fill'', VStr ''200x200'')] = ''format-webp|fill-200x200'' \<and>
   resolve_rendition SNone counting_engine photo [(''width'', VInt 100), (''format'', VStr ''webp'')] 0
     = (Inl (OtherError ''width-100|format-webp''), 1)"
  using resolve_rendition_filter_string [of "[(''fill'', VStr ''200x200''), (''format'', VStr ''webp''), (''webpquality'', VInt 80)]" SNone counting_engine photo 0]
    resolve_rendition_filter_string [of "[(''format'', VStr ''webp''), (''fill'', VStr ''200x200'')]" SNone counting_engine photo 0]
    resolve_rendition_filter_string [of "[(''width'', VInt 100), (''format'', VStr ''webp'')]" SNone counting_engine photo 0]
  by code_simp

text \<open>
  Claim C4: \<open>resolve_rendition\<close> recovers its two local failures without raising. A
  disallowed filter specification gives \<^verbatim>\<open>None\<close> and leaves the engine's state as it
  was, whatever the engine is, so the engine is not called; a \<^verbatim>\<open>SourceImageIOError\<close>
  from the engine gives \<^verbatim>\<open>None\<close>; every other error of the engine leaves the resolver
  unchanged; a rendition is returned as it is.
\<close>

theorem resolve_rendition_failure_modes:
  "(\<not> rendition_allowed cfg (build_filters kwargs) \<longrightarrow>
      resolve_rendition cfg eng inst kwargs s = (Inr None, s)) \<and>
   (rendition_allowed cfg (build_filters kwargs) \<and>
      eng s inst (build_filters kwargs) = (Inl SourceImageIOError, s') \<longrightarrow>
      resolve_rendition cfg eng inst kwargs s = (Inr None, s')) \<and>
   (rendition_allowed cfg (build_filters kwargs) \<and>
      eng s inst (build_filters kwargs) = (Inl e, s') \<and> e \<noteq> SourceImageIOError \<longrightarrow>
      resolve_rendition cfg eng inst kwargs s = (Inl e, s')) \<and>
   (rendition_allowed cfg (build_filters kwargs) \<and>
      eng s inst (build_filters kwargs) = (Inr r, s') \<longrightarrow>
      resolve_rendition cfg eng inst kwargs s = (Inr (Some r), s'))"
  by (simp add: resolve_rendition_cases)

theorem resolve_rendition_failure_modes_witness:
  "resolve_rendition (SList [VStr ''width-100'', VStr ''width-200'']) counting_engine photo [(''width'', VInt 300)] 0
     = (Inr None, 0) \<and>
   resolve_rendition SNone (get_rendition sample_render) broken_photo [(''width'', VInt 100)] [] = (Inr None, []) \<and>
   resolve_rendition SNone (get_rendition sample_render) photo [(''width'', VInt 300)] []
     = (Inl (OtherError ''InvalidFilterSpecError''), []) \<and>
   resolve_rendition (SList [VStr ''width-100'', VStr ''width-200'']) (get_rendition sample_render) photo [(''width'', VInt 100)] []
     = (Inr (Some \<lparr>image_pk = 7, filter_spec = ''width-100'', rendition_file = ''photo.width-100.jpg'',
                     rendition_width = 100, rendition_height = 75\<rparr>),
        [\<lparr>image_pk = 7, filter_spec = ''width-100'', rendition_file = ''photo.width-100.jpg'',
          rendition_width = 100, rendition_height = 75\<rparr>])"
proof -
  let ?cfg = "SList [VStr ''width-100'', VStr ''width-200'']"
  let ?r = "\<lparr>image_pk = 7, filter_spec = ''width-100'', rendition_file = ''photo.width-100.jpg'',
             rendition_width = 100, rendition_height = 75\<rparr>"
  have a: "\<not> rendition_allowed ?cfg (build_filters [(''width'', VInt 300)])"
    by code_simp
  have b: "rendition_allowed SNone (build_filters [(''width'', VInt 100)]) \<and>
           get_rendition sample_render [] broken_photo (build_filters [(''width'', VInt 100)]) = (Inl SourceImageIOError, [])"
    by code_simp
  have c: "rendition_allowed SNone (build_filters [(''width'', VInt 300)]) \<and>
           get_rendition sample_render [] photo (build_filters [(''width'', VInt 300)]) = (Inl (OtherError ''InvalidFilterSpecError''), []) \<and>
           OtherError ''InvalidFilterSpecError'' \<noteq> SourceImageIOError"
    by code_simp
  have d: "rendition_allowed ?cfg (build_filters [(''width'', VInt 100)]) \<and>
           get_rendition sample_render [] photo (build_filters [(''width'', VInt 100)]) = (Inr ?r, [?r])"
    by code_simp
  note fm = resolve_rendition_failure_modes
  have 1: "resolve_rendition ?cfg counting_engine photo [(''width'', VInt 300)] 0 = (Inr None, 0)"
    by (rule fm [where eng = counting_engine, THEN conjunct1, THEN mp, OF a])
  have 2: "resolve_rendition SNone (get_rendition sample_render) broken_photo [(''width'', VInt 100)] [] = (Inr None, [])"
    by (rule fm [where eng = "get_rendition sample_render" and s = "[]" and inst = broken_photo,
          THEN conjunct2, THEN conjunct1, THEN mp, OF b])
  have 3: "resolve_rendition SNone (get_rendition sample_render) photo [(''width'', VInt 300)] []
             = (Inl (OtherError ''InvalidFilterSpecError''), [])"
    by (rule fm [where eng = "get_rendition sample_render" and s = "[]" and inst = photo,
          THEN conjunct2, THEN conjunct2, THEN conjunct1, THEN mp, OF c])
  have 4: "resolve_rendition ?cfg (get_rendition sample_render) photo [(''width'', VInt 100)] [] = (Inr (Some ?r), [?r])"
    by (rule fm [where eng = "get_rendition sample_render" and s = "[]" and inst = photo,
          THEN conjunct2, THEN conjunct2, THEN conjunct2, THEN mp, OF d])
  show ?thesis
    by (intro conjI) (rule 1, rule 2, rule 3, rule 4)
qed

section \<open>Rows with a unique key\<close>

text \<open>Among rows whose keys are pairwise different, at most one carries a given key.\<close>

lemma same_key_at_most_one:
  "distinct (map f ys) \<Longrightarrow> \<forall>y\<in>set ys. f y = k \<Longrightarrow> ys = [] \<or> (\<exists>y. ys = [y])"
proof (cases ys)
  case Nil
  then show ?thesis by simp
next
  case (Cons a zs)
  assume d: "distinct (map f ys)" and k: "\<forall>y\<in>set ys. f y = k"
  show ?thesis
  proof (cases zs)
    case Nil
    with Cons show ?thesis by simp
  next
    case (Cons b rest)
    with \<open>ys = a # zs\<close> d k have False by auto
    then show ?thesis ..
  qed
qed

section \<open>Fetch-or-create\<close>

lemma find_rendition_append:
  "find_rendition store inst f = None \<Longrightarrow> image_pk r = pk inst \<Longrightarrow> filter_spec r = f \<Longrightarrow>
   find_rendition (store @ [r]) inst f = Some r"
  unfolding find_rendition_def by (induction store) (auto split: if_splits)

lemma get_rendition_outcomes:
  assumes "get_rendition render store inst f = (x, store')"
  obtains (found) r where "find_rendition store inst f = Some r" "x = Inr r" "store' = store"
  | (failed) e where "find_rendition store inst f = None" "render inst f = Inl e" "x = Inl e" "store' = store"
  | (created) r0 where "find_rendition store inst f = None" "render inst f = Inr r0"
      "x = Inr (r0\<lparr>image_pk := pk inst, filter_spec := f\<rparr>)"
      "store' = store @ [r0\<lparr>image_pk := pk inst, filter_spec := f\<rparr>]"
  using assms
  by (auto simp: get_rendition_def Let_def split: option.splits sum.splits)

lemma get_rendition_one_per_spec:
  assumes "one_per_spec store" and "get_rendition render store inst f = (x, store')"
  shows "one_per_spec store'"
  using assms(2)
proof (cases rule: get_rendition_outcomes)
  case (found r)
  with assms(1) show ?thesis by simp
next
  case (failed e)
  with assms(1) show ?thesis by simp
next
  case (created r0)
  from created(1) have "(pk inst, f) \<notin> set (map (\<lambda>r. (image_pk r, filter_spec r)) store)"
    by (auto simp: find_rendition_def find_None_iff)
  with assms(1) created(4) show ?thesis
    by (simp add: one_per_spec_def)
qed

lemma get_rendition_stored:
  assumes "get_rendition render store inst f = (Inr r, store')"
  shows "find_rendition store' inst f = Some r"
  using assms
proof (cases rule: get_rendition_outcomes)
  case (found r')
  then show ?thesis by simp
next
  case (failed e)
  then show ?thesis by simp
next
  case (created r0)
  from created(3) have r: "r = r0\<lparr>image_pk := pk inst, filter_spec := f\<rparr>" by simp
  have "find_rendition (store @ [r]) inst f = Some r"
    by (rule find_rendition_append [OF created(1)]) (simp_all add: r)
  with created(4) r show ?thesis by simp
qed

lemma get_rendition_again:
  assumes "get_rendition render store inst f = (Inr r, store')"
  shows "get_rendition render store' inst f = (Inr r, store')"
  using get_rendition_stored [OF assms] by (simp add: get_rendition_def)

lemma stored_once:
  assumes "one_per_spec store" and "find_rendition store inst f = Some r"
  shows "filter (\<lambda>x. image_pk x = pk inst \<and> filter_spec x = f) store = [r]"
proof -
  let ?P = "\<lambda>x. image_pk x = pk inst \<and> filter_spec x = f"
  let ?key = "\<lambda>r. (image_pk r, filter_spec r)"
  have "distinct (map ?key (filter ?P store))"
    using assms(1) by (simp add: one_per_spec_def distinct_map_filter)
  moreover have "\<forall>y\<in>set (filter ?P store). ?key y = (pk inst, f)" by simp
  ultimately have short: "filter ?P store = [] \<or> (\<exists>y. filter ?P store = [y])"
    by (rule same_key_at_most_one)
  from assms(2) have mem: "r \<in> set (filter ?P store)"
    by (auto simp: find_rendition_def find_Some_iff)
  from short show ?thesis
  proof
    assume "filter ?P store = []"
    with mem show ?thesis by (simp only: set_simps empty_iff)
  next
    assume "\<exists>y. filter ?P store = [y]"
    then obtain y where y: "filter ?P store = [y]" ..
    with mem have "r \<in> set [y]" by (simp only:)
    then have "y = r" by simp
    with y show ?thesis by (simp only:)
  qed
qed

lemma resolve_rendition_returned:
  assumes "resolve_rendition cfg eng inst kwargs s = (Inr (Some r), s')"
  shows "rendition_allowed cfg (build_filters kwargs) \<and> eng s inst (build_filters kwargs) = (Inr r, s')"
  using assms
  by (auto simp: resolve_rendition_cases split: if_splits prod.splits sum.splits)

text \<open>Every call of the resolver keeps the invariant, whatever it returns.\<close>

lemma resolve_rendition_one_per_spec:
  assumes "one_per_spec store"
  shows "one_per_spec (snd (resolve_rendition cfg (get_rendition render) inst kwargs store))"
proof (cases "rendition_allowed cfg (build_filters kwargs)")
  case False
  with assms show ?thesis by (simp add: resolve_rendition_cases)
next
  case True
  obtain x store' where g: "get_rendition render store inst (build_filters kwargs) = (x, store')"
    by (cases "get_rendition render store inst (build_filters kwargs)")
  from get_rendition_one_per_spec [OF assms g] have "one_per_spec store'" .
  with True g show ?thesis
    by (cases x) (simp_all add: resolve_rendition_cases)
qed

text \<open>
  Claim C7: with the engine of the specification, a call of \<open>resolve_rendition\<close> that
  returns a rendition keeps the invariant that an image has at most one rendition per
  filter specification; a second call with the same options on the same image returns the
  same rendition and stores nothing new; and the store holds exactly that one rendition
  for the image and filter specification.
\<close>

theorem resolve_rendition_idempotent:
  assumes "one_per_spec store"
    and "resolve_rendition cfg (get_rendition render) inst kwargs store = (Inr (Some r), store')"
  shows "one_per_spec store' \<and>
         resolve_rendition cfg (get_rendition render) inst kwargs store' = (Inr (Some r), store') \<and>
         filter (\<lambda>x. image_pk x = pk inst \<and> filter_spec x = build_filters kwargs) store' = [r]"
proof -
  from resolve_rendition_returned [OF assms(2)]
  have ok: "rendition_allowed cfg (build_filters kwargs)"
    and g: "get_rendition render store inst (build_filters kwargs) = (Inr r, store')" by simp_all
  have inv: "one_per_spec store'"
    by (rule get_rendition_one_per_spec [OF assms(1) g])
  have "get_rendition render store' inst (build_filters kwargs) = (Inr r, store')"
    by (rule get_rendition_again [OF g])
  with ok have again: "resolve_rendition cfg (get_rendition render) inst kwargs store' = (Inr (Some r), store')"
    by (simp add: resolve_rendition_cases)
  have once: "filter (\<lambda>x. image_pk x = pk inst \<and> filter_spec x = build_filters kwargs) store' = [r]"
    by (rule stored_once [OF inv get_rendition_stored [OF g]])
  from inv again once show ?thesis by (intro conjI)
qed

theorem resolve_rendition_idempotent_witness:
  "one_per_spec [] \<and>
   resolve_rendition SNone (get_rendition sample_render) photo [(''width'', VInt 100)] []
     = (Inr (Some \<lparr>image_pk = 7, filter_spec = ''width-100'', rendition_file = ''photo.width-100.jpg'',
                     rendition_width = 100, rendition_height = 75\<rparr>),
        [\<lparr>image_pk = 7, filter_spec = ''width-100'', rendition_file = ''photo.width-100.jpg'',
          rendition_width = 100, rendition_height = 75\<rparr>]) \<and>
   resolve_rendition SNone (get_rendition sample_render) photo [(''width'', VInt 100)]
        [\<lparr>image_pk = 7, filter_spec = ''width-100'', rendition_file = ''photo.width-100.jpg'',
          rendition_width = 100, rendition_height = 75\<rparr>]
     = (Inr (Some \<lparr>image_pk = 7, filter_spec = ''width-100'', rendition_file = ''photo.width-100.jpg'',
                     rendition_width = 100, rendition_height = 75\<rparr>),
        [\<lparr>image_pk = 7, filter_spec = ''width-100'', rendition_file = ''photo.width-100.jpg'',
          rendition_width = 100, rendition_height = 75\<rparr>])"
proof -
  let ?r = "\<lparr>image_pk = 7, filter_spec = ''width-100'', rendition_file = ''photo.width-100.jpg'',
             rendition_width = 100, rendition_height = 75\<rparr>"
  have inv: "one_per_spec []" by (simp add: one_per_spec_def)
  have first: "resolve_rendition SNone (get_rendition sample_render) photo [(''width'', VInt 100)] []
                 = (Inr (Some ?r), [?r])"
    by code_simp
  note t = resolve_rendition_idempotent [OF inv first]
  from inv first t [THEN conjunct2, THEN conjunct1] show ?thesis by (intro conjI)
qed

section \<open>The responsive set\<close>

lemma resolve_rendition_recovered:
  assumes "rendition_allowed cfg (build_filters kwargs)"
    and "eng s inst (build_filters kwargs) = (x, s')"
    and "\<forall>e. x = Inl e \<longrightarrow> e = SourceImageIOError"
  shows "resolve_rendition cfg eng inst kwargs s = (Inr (recovered x), s')"
  using assms by (cases x) (simp_all add: resolve_rendition_cases)

lemma rendition_list_each:
  assumes tok: "\<And>w. build_filters ((''width'', w) # fk) = ''width-'' @ py_str w @ suffix"
  shows "resolve_each eng inst
           (map (\<lambda>w. ''width-'' @ py_str w @ suffix)
              (filter (\<lambda>w. rendition_allowed cfg (''width-'' @ py_str w @ suffix)) sizes)) s = (results, s')
         \<Longrightarrow> \<forall>e. Inl e \<in> set results \<longrightarrow> e = SourceImageIOError
         \<Longrightarrow> rendition_list cfg eng inst suffix fk sizes s = (Inr (map recovered results), s')"
proof (induction sizes arbitrary: s results s')
  case Nil
  then show ?case by auto
next
  case (Cons w sizes)
  let ?t = "''width-'' @ py_str w @ suffix"
  show ?case
  proof (cases "rendition_allowed cfg ?t")
    case False
    with Cons show ?thesis by simp
  next
    case True
    obtain x s1 where x: "eng s inst ?t = (x, s1)" by (cases "eng s inst ?t")
    obtain xs s2 where xs: "resolve_each eng inst
           (map (\<lambda>w. ''width-'' @ py_str w @ suffix)
              (filter (\<lambda>w. rendition_allowed cfg (''width-'' @ py_str w @ suffix)) sizes)) s1 = (xs, s2)"
      by (cases "resolve_each eng inst
           (map (\<lambda>w. ''width-'' @ py_str w @ suffix)
              (filter (\<lambda>w. rendition_allowed cfg (''width-'' @ py_str w @ suffix)) sizes)) s1")
    from Cons.prems(1) True x xs have res: "results = x # xs" and s': "s' = s2" by simp_all
    from Cons.prems(2) res have okx: "\<forall>e. x = Inl e \<longrightarrow> e = SourceImageIOError"
      and okxs: "\<forall>e. Inl e \<in> set xs \<longrightarrow> e = SourceImageIOError" by auto
    from Cons.IH [OF xs okxs]
    have rest: "rendition_list cfg eng inst suffix fk sizes s1 = (Inr (map recovered xs), s2)" .
    have "resolve_rendition cfg eng inst ((''width'', w) # fk) s = (Inr (recovered x), s1)"
    proof (rule resolve_rendition_recovered)
      show "rendition_allowed cfg (build_filters ((''width'', w) # fk))"
        using True by (simp add: tok)
      show "eng s inst (build_filters ((''width'', w) # fk)) = (x, s1)"
        using x by (simp add: tok)
      show "\<forall>e. x = Inl e \<longrightarrow> e = SourceImageIOError"
        by (rule okx)
    qed
    with True rest res s' show ?thesis by simp
  qed
qed

lemma src_set_entries_survivors:
  "\<forall>r\<in>set (survivors results). murl r = Inr (url r) \<Longrightarrow>
   src_set_entries murl (map recovered results) =
     Inr (map (\<lambda>r. url r @ '' '' @ str_int (rendition_width r) @ ''w'') (survivors results))"
proof (induction results)
  case Nil
  show ?case by simp
next
  case (Cons x xs)
  then show ?case by (cases x) simp_all
qed

lemma suffix_token:
  "''width-'' @ py_str w @ (case format of Some f \<Rightarrow> if truthy format then ''|format-'' @ f else [] | None \<Rightarrow> [])
     = width_token w format"
  by (cases format) (simp_all add: width_token_def)

lemma format_kwarg_token:
  "build_filters ((''width'', w) # (case format of Some f \<Rightarrow> if truthy format then [(''format'', VStr f)] else [] | None \<Rightarrow> []))
     = width_token w format"
  by (cases format) (simp_all add: width_token_def build_filters_def)

text \<open>
  Claim C3: for an image with a stored file, \<open>resolve_src_set\<close> asks the engine for the
  token of each width that passes the allow-list check (\<^verbatim>\<open>width-<N>\<close>, with
  \<^verbatim>\<open>|format-<F>\<close> appended when a format is given), in the order of \<open>sizes\<close>; it
  drops the widths whose source could not be read; and it returns the remaining renditions
  as \<^verbatim>\<open><url> <width>w\<close> entries, the width being the rendition's, joined with a comma
  and a space. The hypotheses say that the engine raises nothing but
  \<^verbatim>\<open>SourceImageIOError\<close> on these tokens and that the URL resolver succeeds on the
  renditions that remain; an error of another kind leaves the resolver, as
  \<open>resolve_src_set_propagates\<close> shows.
\<close>

theorem resolve_src_set_survivors:
  assumes "file_name inst \<noteq> None"
    and "resolve_each eng inst
           (map (\<lambda>w. width_token w format)
              (filter (\<lambda>w. rendition_allowed cfg (width_token w format)) sizes)) s = (results, s')"
    and "\<forall>e. Inl e \<in> set results \<longrightarrow> e = SourceImageIOError"
    and "\<forall>r\<in>set (survivors results). murl r = Inr (url r)"
  shows "resolve_src_set cfg eng murl inst sizes format s =
           (Inr (py_join '', '' (map (\<lambda>r. url r @ '' '' @ str_int (rendition_width r) @ ''w'')
                                   (survivors results))), s')"
proof -
  let ?suffix = "case format of Some f \<Rightarrow> if truthy format then ''|format-'' @ f else [] | None \<Rightarrow> []"
  let ?fk = "case format of Some f \<Rightarrow> if truthy format then [(''format'', VStr f)] else [] | None \<Rightarrow> []"
  have tok: "\<And>w. build_filters ((''width'', w) # ?fk) = ''width-'' @ py_str w @ ?suffix"
    by (simp only: suffix_token format_kwarg_token)
  from assms(2) have each: "resolve_each eng inst
           (map (\<lambda>w. ''width-'' @ py_str w @ ?suffix)
              (filter (\<lambda>w. rendition_allowed cfg (''width-'' @ py_str w @ ?suffix)) sizes)) s = (results, s')"
    by (simp only: suffix_token)
  have rl: "rendition_list cfg eng inst ?suffix ?fk sizes s = (Inr (map recovered results), s')"
    by (rule rendition_list_each [OF tok each assms(3)])
  have en: "src_set_entries murl (map recovered results) =
     Inr (map (\<lambda>r. url r @ '' '' @ str_int (rendition_width r) @ ''w'') (survivors results))"
    by (rule src_set_entries_survivors [OF assms(4)])
  from assms(1) rl en show ?thesis
    by (simp add: resolve_src_set_def Let_def)
qed

theorem resolve_src_set_survivors_witness:
  "resolve_src_set (SList [VStr ''width-100'', VStr ''width-200'']) (get_rendition sample_render)
      (\<lambda>r. Inr (media_url r)) photo [VInt 100, VInt 200, VInt 300] None []
     = (Inr ''/media/photo.width-100.jpg 100w, /media/photo.width-200.jpg 200w'',
        [\<lparr>image_pk = 7, filter_spec = ''width-100'', rendition_file = ''photo.width-100.jpg'',
          rendition_width = 100, rendition_height = 75\<rparr>,
         \<lparr>image_pk = 7, filter_spec = ''width-200'', rendition_file = ''photo.width-200.jpg'',
          rendition_width = 200, rendition_height = 150\<rparr>]) \<and>
   resolve_src_set (SList [VStr ''width-100'']) (get_rendition sample_render)
      (\<lambda>r. Inr (media_url r)) photo [VInt 100, VInt 200] None []
     = (Inr ''/media/photo.width-100.jpg 100w'',
        [\<lparr>image_pk = 7, filter_spec = ''width-100'', rendition_file = ''photo.width-100.jpg'',
          rendition_width = 100, rendition_height = 75\<rparr>]) \<and>
   resolve_src_set SNone (get_rendition sample_render)
      (\<lambda>r. Inr (media_url r)) broken_photo [VInt 100, VInt 200] (Some ''webp'') [] = (Inr [], [])"
proof -
  let ?r1 = "\<lparr>image_pk = 7, filter_spec = ''width-100'', rendition_file = ''photo.width-100.jpg'',
              rendition_width = 100, rendition_height = 75\<rparr>"
  let ?r2 = "\<lparr>image_pk = 7, filter_spec = ''width-200'', rendition_file = ''photo.width-200.jpg'',
              rendition_width = 200, rendition_height = 150\<rparr>"
  let ?eng = "get_rendition sample_render"
  let ?murl = "\<lambda>r. Inr (media_url r) :: exn + string"
  have f1: "file_name photo \<noteq> None" by (simp add: photo_def)
  have f2: "file_name broken_photo \<noteq> None" by (simp add: broken_photo_def)
  have e1: "resolve_each ?eng photo
              (map (\<lambda>w. width_token w None)
                 (filter (\<lambda>w. rendition_allowed (SList [VStr ''width-100'', VStr ''width-200'']) (width_token w None))
                    [VInt 100, VInt 200, VInt 300])) [] = ([Inr ?r1, Inr ?r2], [?r1, ?r2])"
    by code_simp
  have e2: "resolve_each ?eng photo
              (map (\<lambda>w. width_token w None)
                 (filter (\<lambda>w. rendition_allowed (SList [VStr ''width-100'']) (width_token w None))
                    [VInt 100, VInt 200])) [] = ([Inr ?r1], [?r1])"
    by code_simp
  have e3: "resolve_each ?eng broken_photo
              (map (\<lambda>w. width_token w (Some ''webp''))
                 (filter (\<lambda>w. rendition_allowed SNone (width_token w (Some ''webp'')))
                    [VInt 100, VInt 200])) [] = ([Inl SourceImageIOError, Inl SourceImageIOError], [])"
    by code_simp
  have o1: "\<forall>e. Inl e \<in> set [Inr ?r1, Inr ?r2] \<longrightarrow> e = SourceImageIOError" by simp
  have o2: "\<forall>e. Inl e \<in> set [Inr ?r1] \<longrightarrow> e = SourceImageIOError" by simp
  have o3: "\<forall>e. Inl e \<in> set [Inl SourceImageIOError, Inl SourceImageIOError :: exn + rendition]
              \<longrightarrow> e = SourceImageIOError" by simp
  have u: "\<forall>r\<in>set (survivors xs). ?murl r = Inr (media_url r)" for xs by simp
  have j1: "py_join '', '' (map (\<lambda>r. media_url r @ '' '' @ str_int (rendition_width r) @ ''w'')
               (survivors [Inr ?r1, Inr ?r2]))
             = ''/media/photo.width-100.jpg 100w, /media/photo.width-200.jpg 200w''"
    by code_simp
  have j2: "py_join '', '' (map (\<lambda>r. media_url r @ '' '' @ str_int (rendition_width r) @ ''w'')
               (survivors [Inr ?r1])) = ''/media/photo.width-100.jpg 100w''"
    by code_simp
  have j3: "py_join '', '' (map (\<lambda>r. media_url r @ '' '' @ str_int (rendition_width r) @ ''w'')
               (survivors [Inl SourceImageIOError, Inl SourceImageIOError])) = []"
    by simp
  note t1 = resolve_src_set_survivors [where murl = ?murl and url = media_url, OF f1 e1 o1 u]
  note t2 = resolve_src_set_survivors [where murl = ?murl and url = media_url, OF f1 e2 o2 u]
  note t3 = resolve_src_set_survivors [where murl = ?murl and url = media_url, OF f2 e3 o3 u]
  from t1 j1 have 1: "resolve_src_set (SList [VStr ''width-100'', VStr ''width-200'']) ?eng ?murl photo
      [VInt 100, VInt 200, VInt 300] None []
     = (Inr ''/media/photo.width-100.jpg 100w, /media/photo.width-200.jpg 200w'', [?r1, ?r2])"
    by (simp only:)
  from t2 j2 have 2: "resolve_src_set (SList [VStr ''width-100'']) ?eng ?murl photo [VInt 100, VInt 200] None []
     = (Inr ''/media/photo.width-100.jpg 100w'', [?r1])"
    by (simp only:)
  from t3 j3 have 3: "resolve_src_set SNone ?eng ?murl broken_photo [VInt 100, VInt 200] (Some ''webp'') []
     = (Inr [], [])"
    by (simp only:)
  from 1 2 3 show ?thesis by (intro conjI)
qed

text \<open>An error that ends the first comprehension leaves \<open>resolve_src_set\<close> as it is.\<close>

lemma rendition_list_first_error:
  assumes "rendition_allowed cfg (''width-'' @ py_str w @ suffix)"
    and "resolve_rendition cfg eng inst ((''width'', w) # fk) s = (Inl e, s')"
  shows "rendition_list cfg eng inst suffix fk (w # sizes) s = (Inl e, s')"
  using assms by simp

lemma resolve_src_set_propagates:
  assumes "file_name inst \<noteq> None"
    and "rendition_allowed cfg (width_token w format)"
    and "eng s inst (width_token w format) = (Inl e, s')"
    and "e \<noteq> SourceImageIOError"
  shows "resolve_src_set cfg eng murl inst (w # sizes) format s = (Inl e, s')"
proof -
  let ?suffix = "case format of Some f \<Rightarrow> if truthy format then ''|format-'' @ f else [] | None \<Rightarrow> []"
  let ?fk = "case format of Some f \<Rightarrow> if truthy format then [(''format'', VStr f)] else [] | None \<Rightarrow> []"
  have a: "rendition_allowed cfg (''width-'' @ py_str w @ ?suffix)"
    using assms(2) by (simp only: suffix_token)
  have "resolve_rendition cfg eng inst ((''width'', w) # ?fk) s = (Inl e, s')"
    using assms(2-4) by (simp add: resolve_rendition_cases format_kwarg_token)
  then have "rendition_list cfg eng inst ?suffix ?fk (w # sizes) s = (Inl e, s')"
    by (rule rendition_list_first_error [OF a])
  with assms(1) show ?thesis
    by (simp add: resolve_src_set_def Let_def)
qed

lemma resolve_src_set_propagates_example:
  "resolve_src_set SNone (get_rendition sample_render) (\<lambda>r. Inr (media_url r)) photo
      [VInt 300, VInt 100] None [] = (Inl (OtherError ''InvalidFilterSpecError''), [])"
  by code_simp

text \<open>
  When \<^verbatim>\<open>instance.file.name\<close> is \<^verbatim>\<open>None\<close>, \<open>resolve_src_set\<close> returns the empty
  string and leaves the engine's state as it was, whatever the engine is.
\<close>

lemma resolve_src_set_no_file:
  "file_name inst = None \<Longrightarrow> resolve_src_set cfg eng murl inst sizes format s = (Inr [], s)"
  by (simp add: resolve_src_set_def Let_def)

lemma resolve_src_set_no_file_example:
  "resolve_src_set SNone counting_engine (\<lambda>r. Inr (media_url r)) no_file_photo
      [VInt 100, VInt 200] (Some ''webp'') 0 = (Inr [], 0)"
  by (rule resolve_src_set_no_file) (simp add: no_file_photo_def)

text \<open>
  Claim C6 says that for every image with no stored file \<open>resolve_src_set\<close> returns the
  empty string at once, without resolving any rendition. The guard
  \<^verbatim>\<open>instance.file.name is not None\<close> misses the image without a file whose file name
  is the empty string: there the guard passes, the engine is called for the first width
  (the count of calls goes from 0 to 1), and what the engine raises leaves the resolver.
\<close>

theorem resolve_src_set_empty_file_name:
  "file_name empty_name_photo = Some [] \<and>
   resolve_src_set SNone counting_engine (\<lambda>r. Inr (media_url r)) empty_name_photo
      [VInt 100, VInt 200] None 0 = (Inl (OtherError ''width-100''), 1)"
  by code_simp

section \<open>Fetch by identifier\<close>

lemma public_with_key:
  "set (filter (\<lambda>i. pk i = k) (public_images objects)) =
     {i \<in> set objects. pk i = k \<and> view_restrictions (collection i) = []}"
  by (auto simp: public_images_def)

lemma public_with_key_short:
  assumes "distinct (map pk objects)"
  shows "filter (\<lambda>i. pk i = k) (public_images objects) = [] \<or>
         (\<exists>i. filter (\<lambda>i. pk i = k) (public_images objects) = [i])"
proof (rule same_key_at_most_one)
  from assms show "distinct (map pk (filter (\<lambda>i. pk i = k) (public_images objects)))"
    by (simp add: public_images_def distinct_map_filter)
  show "\<forall>y\<in>set (filter (\<lambda>i. pk i = k) (public_images objects)). pk y = k"
    by simp
qed

lemma resolve_image_found:
  "ident \<noteq> VNone \<Longrightarrow> to_python ident = Inr k \<Longrightarrow>
   filter (\<lambda>i. pk i = k) (public_images objects) = [i] \<Longrightarrow>
   resolve_image to_python objects ident = Inr (Some i)"
  by (simp add: resolve_image_def queryset_get_def)

lemma resolve_image_missing:
  "ident \<noteq> VNone \<Longrightarrow> to_python ident = Inr k \<Longrightarrow>
   filter (\<lambda>i. pk i = k) (public_images objects) = [] \<Longrightarrow>
   resolve_image to_python objects ident = Inr None"
  by (simp add: resolve_image_def queryset_get_def)

lemma resolve_image_null: "resolve_image to_python objects VNone = Inr None"
  by (simp add: resolve_image_def queryset_get_def)

lemma resolve_image_rejected:
  "ident \<noteq> VNone \<Longrightarrow> to_python ident = Inl e \<Longrightarrow>
   resolve_image to_python objects ident = (if e = DoesNotExist then Inr None else Inl e)"
  by (simp add: resolve_image_def queryset_get_def)

lemma resolve_image_key:
  assumes "distinct (map pk objects)" and "ident \<noteq> VNone" and "to_python ident = Inr k"
  shows "(resolve_image to_python objects ident = Inr (Some i) \<longleftrightarrow>
            i \<in> set objects \<and> pk i = k \<and> view_restrictions (collection i) = []) \<and>
         (resolve_image to_python objects ident = Inr None \<longleftrightarrow>
            \<not> (\<exists>j\<in>set objects. pk j = k \<and> view_restrictions (collection j) = [])) \<and>
         (\<forall>e. resolve_image to_python objects ident \<noteq> Inl e)"
proof -
  let ?m = "filter (\<lambda>i. pk i = k) (public_images objects)"
  from public_with_key_short [OF assms(1), of k]
  consider (none) "?m = []" | (one) x where "?m = [x]" by blast
  then show ?thesis
  proof cases
    case none
    then have "{i \<in> set objects. pk i = k \<and> view_restrictions (collection i) = []} = {}"
      using public_with_key [of k objects] by simp
    then have no: "\<And>j. j \<in> set objects \<Longrightarrow> pk j = k \<Longrightarrow> view_restrictions (collection j) \<noteq> []"
      by blast
    from assms(2,3) none have "resolve_image to_python objects ident = Inr None"
      by (rule resolve_image_missing)
    with no show ?thesis by auto
  next
    case one
    then have "{i \<in> set objects. pk i = k \<and> view_restrictions (collection i) = []} = {x}"
      using public_with_key [of k objects] by simp
    then have only: "\<And>j. (j \<in> set objects \<and> pk j = k \<and> view_restrictions (collection j) = []) = (j = x)"
      by blast
    from assms(2,3) one have "resolve_image to_python objects ident = Inr (Some x)"
      by (rule resolve_image_found)
    with only show ?thesis by auto
  qed
qed

text \<open>
  Claim C5, as stated, has \<open>resolve_image\<close> return null rather than raise for every
  identifier that names no image. The identifier \<^verbatim>\<open>"abc"\<close> names no image, the key
  coercion rejects it with \<^verbatim>\<open>ValueError\<close>, and the resolver, which catches
  \<^verbatim>\<open>DoesNotExist\<close> only, raises that error.
\<close>

theorem resolve_image_non_numeric_counterexample:
  "resolve_image sample_to_python [photo, broken_photo, private_photo] (VStr ''abc'') = Inl ValueError"
  by code_simp

text \<open>
  Claim C5, amended: in a table whose primary keys are pairwise different, for a null
  identifier \<open>resolve_image\<close> returns \<^verbatim>\<open>None\<close>; for an identifier that the key coercion
  turns into a key it returns an image exactly when it is the image of the table with
  that key and its collection has no view restrictions, it returns \<^verbatim>\<open>None\<close> exactly
  when there is no such image, which covers an unknown key and an image in a restricted
  collection, and it does not raise; for an identifier that the key coercion rejects, the
  error of the coercion leaves the resolver (unless it is \<^verbatim>\<open>DoesNotExist\<close>, the one
  exception that is caught).
\<close>

theorem resolve_image_public_or_null:
  assumes "distinct (map pk objects)"
  shows "(ident = VNone \<longrightarrow> resolve_image to_python objects ident = Inr None) \<and>
         (ident \<noteq> VNone \<and> to_python ident = Inr k \<longrightarrow>
            (resolve_image to_python objects ident = Inr (Some i) \<longleftrightarrow>
               i \<in> set objects \<and> pk i = k \<and> view_restrictions (collection i) = []) \<and>
            (resolve_image to_python objects ident = Inr None \<longleftrightarrow>
               \<not> (\<exists>j\<in>set objects. pk j = k \<and> view_restrictions (collection j) = [])) \<and>
            (\<forall>e. resolve_image to_python objects ident \<noteq> Inl e)) \<and>
         (ident \<noteq> VNone \<and> to_python ident = Inl e \<and> e \<noteq> DoesNotExist \<longrightarrow>
            resolve_image to_python objects ident = Inl e)"
proof (intro conjI impI)
  assume "ident = VNone"
  then show "resolve_image to_python objects ident = Inr None"
    by (simp add: resolve_image_null)
next
  assume a: "ident \<noteq> VNone \<and> to_python ident = Inr k"
  then have n: "ident \<noteq> VNone" and c: "to_python ident = Inr k" by simp_all
  note key = resolve_image_key [where to_python = to_python and ident = ident, OF assms n c]
  show "resolve_image to_python objects ident = Inr (Some i) \<longleftrightarrow>
          i \<in> set objects \<and> pk i = k \<and> view_restrictions (collection i) = []"
    by (rule key [THEN conjunct1])
  show "resolve_image to_python objects ident = Inr None \<longleftrightarrow>
          \<not> (\<exists>j\<in>set objects. pk j = k \<and> view_restrictions (collection j) = [])"
    by (rule key [THEN conjunct2, THEN conjunct1])
  show "\<forall>e. resolve_image to_python objects ident \<noteq> Inl e"
    by (rule key [THEN conjunct2, THEN conjunct2])
next
  assume "ident \<noteq> VNone \<and> to_python ident = Inl e \<and> e \<noteq> DoesNotExist"
  then show "resolve_image to_python objects ident = Inl e"
    by (simp add: resolve_image_rejected)
qed

theorem resolve_image_public_or_null_witness:
  "distinct (map pk [photo, broken_photo, private_photo]) \<and>
   resolve_image sample_to_python [photo, broken_photo, private_photo] VNone = Inr None \<and>
   resolve_image sample_to_python [photo, broken_photo, private_photo] (VStr ''7'') = Inr (Some photo) \<and>
   resolve_image sample_to_python [photo, broken_photo, private_photo] (VStr ''10'') = Inr None \<and>
   resolve_image sample_to_python [photo, broken_photo, private_photo] (VStr ''11'') = Inr None \<and>
   resolve_image sample_to_python [photo, broken_photo, private_photo] (VStr ''seven'') = Inl ValueError"
proof -
  let ?db = "[photo, broken_photo, private_photo]"
  have d: "distinct (map pk ?db)"
    by (simp add: photo_def broken_photo_def private_photo_def)
  have k7: "VStr ''7'' \<noteq> VNone \<and> sample_to_python (VStr ''7'') = Inr 7" by code_simp
  have k10: "VStr ''10'' \<noteq> VNone \<and> sample_to_python (VStr ''10'') = Inr 10" by code_simp
  have k11: "VStr ''11'' \<noteq> VNone \<and> sample_to_python (VStr ''11'') = Inr 11" by code_simp
  have bad: "VStr ''seven'' \<noteq> VNone \<and> sample_to_python (VStr ''seven'') = Inl ValueError \<and>
             ValueError \<noteq> DoesNotExist" by code_simp
  have p: "photo \<in> set ?db \<and> pk photo = 7 \<and> view_restrictions (collection photo) = []"
    by (simp add: photo_def public_collection_def)
  have q: "\<not> (\<exists>j\<in>set ?db. pk j = 10 \<and> view_restrictions (collection j) = [])"
    by (simp add: photo_def broken_photo_def private_photo_def private_collection_def)
  have r: "\<not> (\<exists>j\<in>set ?db. pk j = 11 \<and> view_restrictions (collection j) = [])"
    by (simp add: photo_def broken_photo_def private_photo_def)
  note t = resolve_image_public_or_null [OF d, where to_python = sample_to_python]
  have 0: "resolve_image sample_to_python ?db VNone = Inr None"
    by (rule t [THEN conjunct1, THEN mp, OF refl])
  have 1: "resolve_image sample_to_python ?db (VStr ''7'') = Inr (Some photo)"
    by (rule t [THEN conjunct2, THEN conjunct1, THEN mp, OF k7, THEN conjunct1, THEN iffD2, OF p])
  have 2: "resolve_image sample_to_python ?db (VStr ''10'') = Inr None"
    by (rule t [THEN conjunct2, THEN conjunct1, THEN mp, OF k10, THEN conjunct2, THEN conjunct1, THEN iffD2, OF q])
  have 3: "resolve_image sample_to_python ?db (VStr ''11'') = Inr None"
    by (rule t [THEN conjunct2, THEN conjunct1, THEN mp, OF k11, THEN conjunct2, THEN conjunct1, THEN iffD2, OF r])
  have 4: "resolve_image sample_to_python ?db (VStr ''seven'') = Inl ValueError"
    by (rule t [THEN conjunct2, THEN conjunct2, THEN mp, OF bad])
  from d 0 1 2 3 4 show ?thesis by (intro conjI)
qed

section \<open>The plain fields\<close>

text \<open>
  Claim C8: for every image whose height is not zero, \<open>resolve_aspect_ratio\<close> returns the
  float of the quotient of width by height; for a height of zero the division is not
  guarded and raises \<^verbatim>\<open>ZeroDivisionError\<close>.
\<close>

theorem resolve_aspect_ratio_quotient:
  "(height inst \<noteq> 0 \<longrightarrow> resolve_aspect_ratio float inst = Inr (float (of_int (width inst) / of_int (height inst)))) \<and>
   (height inst = 0 \<longrightarrow> resolve_aspect_ratio float inst = Inl ZeroDivisionError)"
  by (simp add: resolve_aspect_ratio_def)

theorem resolve_aspect_ratio_quotient_witness:
  "resolve_aspect_ratio (\<lambda>q. q) photo = Inr (4 / 3) \<and>
   resolve_aspect_ratio (\<lambda>q. q) (photo\<lparr>height := 0\<rparr>) = Inl ZeroDivisionError"
  using resolve_aspect_ratio_quotient [of photo "\<lambda>q. q"]
    resolve_aspect_ratio_quotient [of "photo\<lparr>height := 0\<rparr>" "\<lambda>q. q"]
  by (simp add: photo_def)

text \<open>
  Claim C9: for every image, \<open>resolve_src\<close> and \<open>resolve_url\<close> return the same value,
  the media-URL resolver applied to the image (or the error it raises).
\<close>

theorem resolve_src_is_resolve_url:
  "resolve_src get_media_item_url inst = resolve_url get_media_item_url inst \<and>
   resolve_url get_media_item_url inst = get_media_item_url inst"
  by (simp add: resolve_src_def resolve_url_def)

text \<open>
  Claim C10: for every image, \<open>resolve_sizes\<close> is the string
  \<^verbatim>\<open>(max-width: <width>px) 100vw, <width>px\<close> with the image's width in decimal, and two
  images of the same width resolve to the same string whatever else differs.
\<close>

theorem resolve_sizes_from_width:
  "resolve_sizes inst = ''(max-width: '' @ str_int (width inst) @ ''px) 100vw, '' @ str_int (width inst) @ ''px'' \<and>
   (width inst' = width inst \<longrightarrow> resolve_sizes inst' = resolve_sizes inst)"
  by (simp add: resolve_sizes_def)

theorem resolve_sizes_from_width_witness:
  "resolve_sizes photo = ''(max-width: 640px) 100vw, 640px'' \<and>
   resolve_sizes private_photo = resolve_sizes photo"
proof -
  have w: "width private_photo = width photo" by (simp add: private_photo_def)
  have s: "str_int (width photo) = ''640''" by code_simp
  from w s resolve_sizes_from_width [of photo private_photo] show ?thesis by simp
qed

text \<open>Conversely, images of different widths resolve to different strings.\<close>

lemma resolve_sizes_inj: "resolve_sizes a = resolve_sizes b \<Longrightarrow> width a = width b"
proof -
  assume eq: "resolve_sizes a = resolve_sizes b"
  let ?p = "''(max-width: ''" and ?m = "''px) 100vw, ''" and ?e = "''px''"
  let ?x = "str_int (width a)" and ?y = "str_int (width b)"
  from eq have e: "?p @ ?x @ ?m @ ?x @ ?e = ?p @ ?y @ ?m @ ?y @ ?e"
    by (simp add: resolve_sizes_def)
  then have "length (?p @ ?x @ ?m @ ?x @ ?e) = length (?p @ ?y @ ?m @ ?y @ ?e)" by (rule arg_cong)
  then have len: "length ?x = length ?y" by simp
  from e have "?x @ (?m @ ?x @ ?e) = ?y @ (?m @ ?y @ ?e)" by simp
  moreover have "x = y" if "length x = length y" "x @ u = y @ v" for x y u v :: string
    using that by simp
  ultimately have "?x = ?y" using len by blast
  then show ?thesis by (rule str_int_inj)
qed

end
